theory Spec2Isabelle
  imports Complex_Main "HOL-Library.Multiset" "HOL-Library.Char_ord"
    "HOL-Library.List_Lexorder" "HOL-Library.Product_Lexorder"
begin

section \<open>The ledger store\<close>

text \<open>
  The store is the SQLite database that \<open>initializeDatabase\<close> of the main process
  creates. Each table is the list of its rows; a row is a record with one field per
  column. Field names carry the table's prefix, since record fields share one name space.
  Money columns are \<open>REAL\<close> and JavaScript numbers: they are modelled by \<open>real\<close>, so
  every statement below is about exact arithmetic and says nothing about rounding.
  \<open>INTEGER\<close> columns and row ids are \<open>int\<close>. The \<open>createdAt\<close> column holds the text of
  \<open>CURRENT_TIMESTAMP\<close> (UTC, \<open>YYYY-MM-DD HH:MM:SS\<close>); it is modelled by the number of
  seconds since the epoch, and the calendar day that \<open>date(...)\<close> and
  \<open>strftime('%Y-%m-%d', ...)\<close> extract from it by the day number.
\<close>

datatype payment_method = Cash | Card | Mixed

record user =
  u_id :: int
  u_username :: string
  u_password :: string
  u_role :: string

record product =
  p_id :: int
  p_name :: string
  p_barcode :: "string option"
  p_price :: real
  p_cost :: real
  p_quantity :: int
  p_lowStockThreshold :: int
  p_category :: "string option"
  p_image :: "string option"

record sale =
  s_id :: int
  s_customerId :: "int option"
  s_total :: real
  s_discount :: real
  s_tax :: real
  s_paymentMethod :: payment_method
  s_paidAmount :: real
  s_changeAmount :: real
  s_userId :: int
  s_createdAt :: int

record sale_item =
  si_id :: int
  si_saleId :: int
  si_productId :: int
  si_quantity :: int
  si_price :: real

text \<open>
  \<open>foreign_keys\<close> is the connection's \<open>PRAGMA foreign_keys\<close>. The main process never sets
  it, so whether the \<open>FOREIGN KEY\<close> clauses of the schema are enforced is decided by the
  SQLite build; it is a parameter of the store here. \<open>customers\<close> keeps the ids of the
  customer rows only (nothing else of them is read by the modelled handlers).
  \<open>sales_seq\<close> and \<open>sale_items_seq\<close> are the \<open>sqlite_sequence\<close> entries of the two
  \<open>AUTOINCREMENT\<close> tables.
\<close>

record db =
  foreign_keys :: bool
  users :: "user list"
  customers :: "int list"
  products :: "product list"
  sales :: "sale list"
  sales_seq :: int
  sale_items :: "sale_item list"
  sale_items_seq :: int

text \<open>The one way a statement of the modelled handlers is refused. The payload types
  have no null, so the \<open>NOT NULL\<close> clauses of the schema cannot fail, and the row ids
  are chosen by the store, so the primary keys cannot either.\<close>

datatype error = ForeignKeyFailed

text \<open>The payload types of \<open>db/types.ts\<close>. \<open>discount\<close> and \<open>customerId\<close> are options
  because the handler guards both with \<open>||\<close>.\<close>

record SaleItemPayload =
  it_id :: int
  it_name :: string
  it_price :: real
  it_quantity :: int

record SalePayload =
  items :: "SaleItemPayload list"
  discount :: "real option"
  taxRate :: real
  paymentMethod :: payment_method
  paidAmount :: real
  customerId :: "int option"
  userId :: int

record SaleResult =
  r_saleId :: int
  r_total :: real
  r_taxValue :: real
  r_discountValue :: real
  r_changeAmount :: real

section \<open>Posting a sale: \<open>pos/createSale\<close>\<close>

subsection \<open>The amounts\<close>

text \<open>\<open>items.reduce((acc, item) => acc + item.price * item.quantity, 0)\<close>\<close>

definition subtotal :: "SaleItemPayload list \<Rightarrow> real" where
  "subtotal its = foldl (\<lambda>acc item. acc + it_price item * of_int (it_quantity item)) 0 its"

text \<open>\<open>discount || 0\<close>: a missing discount and the falsy number \<open>0\<close> both give \<open>0\<close>.\<close>

definition discountValue :: "real option \<Rightarrow> real" where
  "discountValue dsc = (case dsc of None \<Rightarrow> 0 | Some v \<Rightarrow> (if v = 0 then 0 else v))"

definition taxValue :: "SalePayload \<Rightarrow> real" where
  "taxValue payload =
     (subtotal (items payload) - discountValue (discount payload)) * taxRate payload"

definition total :: "SalePayload \<Rightarrow> real" where
  "total payload =
     subtotal (items payload) - discountValue (discount payload) + taxValue payload"

definition changeAmount :: "SalePayload \<Rightarrow> real" where
  "changeAmount payload = paidAmount payload - total payload"

subsection \<open>The statements\<close>

text \<open>The row id an \<open>AUTOINCREMENT\<close> table gives a new row: one more than the largest
  id the table holds or has ever held.\<close>

definition next_rowid :: "int \<Rightarrow> int list \<Rightarrow> int" where
  "next_rowid seq ids = fold max ids seq + 1"

text \<open>\<open>customerId || null\<close>\<close>

definition customerId_or_null :: "int option \<Rightarrow> int option" where
  "customerId_or_null c = (case c of None \<Rightarrow> None | Some v \<Rightarrow> (if v = 0 then None else Some v))"

text \<open>The references of a \<open>sales\<close> row: \<open>customerId\<close> (when not null) to \<open>customers(id)\<close>,
  \<open>userId\<close> to \<open>users(id)\<close>.\<close>

definition sale_refs :: "db \<Rightarrow> int option \<Rightarrow> int \<Rightarrow> bool" where
  "sale_refs d cust usr =
     ((case cust of None \<Rightarrow> True | Some c \<Rightarrow> c \<in> set (customers d))
      \<and> usr \<in> set (map u_id (users d)))"

text \<open>The \<open>VALUES\<close> of the header row: \<open>(customerId || null, total, discountValue,
  taxValue, paymentMethod, paidAmount, changeAmount, userId)\<close>; \<open>createdAt\<close> takes its
  default, the current time \<open>now\<close>.\<close>

definition sale_row :: "int \<Rightarrow> SalePayload \<Rightarrow> int \<Rightarrow> sale" where
  "sale_row now payload rowid =
     \<lparr>s_id = rowid,
      s_customerId = customerId_or_null (customerId payload),
      s_total = total payload,
      s_discount = discountValue (discount payload),
      s_tax = taxValue payload,
      s_paymentMethod = paymentMethod payload,
      s_paidAmount = paidAmount payload,
      s_changeAmount = changeAmount payload,
      s_userId = userId payload,
      s_createdAt = now\<rparr>"

text \<open>\<open>insertSale.run(...).lastInsertRowid\<close>\<close>

definition insertSale :: "int \<Rightarrow> SalePayload \<Rightarrow> db \<Rightarrow> error + (db \<times> int)" where
  "insertSale now payload d =
     (if foreign_keys d \<and> \<not> sale_refs d (customerId_or_null (customerId payload)) (userId payload)
      then Inl ForeignKeyFailed
      else
        let rowid = next_rowid (sales_seq d) (map s_id (sales d))
        in Inr (d\<lparr>sales := sales d @ [sale_row now payload rowid], sales_seq := rowid\<rparr>, rowid))"

text \<open>The references of a \<open>sale_items\<close> row: \<open>saleId\<close> to \<open>sales(id)\<close>, \<open>productId\<close> to
  \<open>products(id)\<close>.\<close>

definition item_refs :: "db \<Rightarrow> int \<Rightarrow> int \<Rightarrow> bool" where
  "item_refs d sid pid = (sid \<in> set (map s_id (sales d)) \<and> pid \<in> set (map p_id (products d)))"

text \<open>The \<open>VALUES\<close> of an item row: \<open>(saleId, item.id, item.quantity, item.price)\<close>\<close>

definition sale_item_row :: "int \<Rightarrow> SaleItemPayload \<Rightarrow> int \<Rightarrow> sale_item" where
  "sale_item_row saleId item rowid =
     \<lparr>si_id = rowid, si_saleId = saleId, si_productId = it_id item,
      si_quantity = it_quantity item, si_price = it_price item\<rparr>"

text \<open>\<open>insertItem.run(saleId, item.id, item.quantity, item.price)\<close>\<close>

definition insertItem :: "int \<Rightarrow> SaleItemPayload \<Rightarrow> db \<Rightarrow> error + db" where
  "insertItem saleId item d =
     (if foreign_keys d \<and> \<not> item_refs d saleId (it_id item)
      then Inl ForeignKeyFailed
      else
        let rowid = next_rowid (sale_items_seq d) (map si_id (sale_items d))
        in Inr (d\<lparr>sale_items := sale_items d @ [sale_item_row saleId item rowid],
                 sale_items_seq := rowid\<rparr>))"

text \<open>\<open>updateStock.run(item.quantity, item.id)\<close>, that is
  \<open>UPDATE products SET quantity = quantity - ? WHERE id = ?\<close>: every row with that id is
  rewritten, and a statement that matches no row changes nothing and is no error.\<close>

definition updateStock :: "SaleItemPayload \<Rightarrow> db \<Rightarrow> db" where
  "updateStock item d =
     d\<lparr>products :=
         map (\<lambda>p. if p_id p = it_id item
                   then p\<lparr>p_quantity := p_quantity p - it_quantity item\<rparr> else p)
             (products d)\<rparr>"

text \<open>The body of the transaction, \<open>saleItems.forEach(...)\<close>: the first statement that
  raises ends the loop.\<close>

fun saleItems_forEach :: "int \<Rightarrow> SaleItemPayload list \<Rightarrow> db \<Rightarrow> error + db" where
  "saleItems_forEach saleId [] d = Inr d"
| "saleItems_forEach saleId (item # rest) d =
     (case insertItem saleId item d of
        Inl e \<Rightarrow> Inl e
      | Inr d1 \<Rightarrow> saleItems_forEach saleId rest (updateStock item d1))"

text \<open>\<open>db.transaction(fn)\<close>: when the body raises, every write of the body is rolled
  back and the exception goes on to the caller; otherwise the writes are committed. The
  first component is the store afterwards.\<close>

definition transaction :: "(db \<Rightarrow> error + db) \<Rightarrow> db \<Rightarrow> db \<times> (error + unit)" where
  "transaction body d = (case body d of Inl e \<Rightarrow> (d, Inl e) | Inr d' \<Rightarrow> (d', Inr ()))"

subsection \<open>The handler\<close>

text \<open>The handler inserts the header row first, outside the transaction, and then runs
  the transaction over the items. The result pairs the store the handler leaves behind
  with what the caller gets: the returned object, or the exception.\<close>

definition createSale :: "int \<Rightarrow> db \<Rightarrow> SalePayload \<Rightarrow> db \<times> (error + SaleResult)" where
  "createSale now d payload =
     (case insertSale now payload d of
        Inl e \<Rightarrow> (d, Inl e)
      | Inr (d1, saleId) \<Rightarrow>
          (case transaction (saleItems_forEach saleId (items payload)) d1 of
             (d2, Inl e) \<Rightarrow> (d2, Inl e)
           | (d2, Inr _) \<Rightarrow>
               (d2, Inr \<lparr>r_saleId = saleId,
                         r_total = total payload,
                         r_taxValue = taxValue payload,
                         r_discountValue = discountValue (discount payload),
                         r_changeAmount = changeAmount payload\<rparr>)))"

subsection \<open>When the store accepts a sale\<close>

text \<open>The only statements of the handler that can be refused are the two inserts, by
  a foreign key. \<open>header_accepted\<close> says that the header insert passes,
  \<open>items_accepted\<close> that every item insert does (the header then exists, so only the
  product reference matters).\<close>

definition header_accepted :: "db \<Rightarrow> SalePayload \<Rightarrow> bool" where
  "header_accepted d payload =
     (if foreign_keys d
      then sale_refs d (customerId_or_null (customerId payload)) (userId payload)
      else True)"

definition items_accepted :: "db \<Rightarrow> SaleItemPayload list \<Rightarrow> bool" where
  "items_accepted d its =
     (if foreign_keys d then list_all (\<lambda>i. it_id i \<in> set (map p_id (products d))) its else True)"

text \<open>The store once the header row is in: what \<open>insertSale\<close> leaves when it passes.\<close>

definition with_header :: "int \<Rightarrow> db \<Rightarrow> SalePayload \<Rightarrow> db" where
  "with_header now d p =
     d\<lparr>sales := sales d @ [sale_row now p (next_rowid (sales_seq d) (map s_id (sales d)))],
       sales_seq := next_rowid (sales_seq d) (map s_id (sales d))\<rparr>"

text \<open>The quantity a cart posts for one product id, over all of its lines.\<close>

definition posted_quantity :: "SaleItemPayload list \<Rightarrow> int \<Rightarrow> int" where
  "posted_quantity its pid = sum_list (map it_quantity (filter (\<lambda>i. it_id i = pid) its))"

section \<open>The dashboard: \<open>dashboard/metrics\<close>\<close>

text \<open>Of the five queries of the handler, the two below are modelled: \<open>topProducts\<close> and
  \<open>salesTrend\<close>.\<close>

text \<open>\<open>date(t)\<close> and \<open>strftime('%Y-%m-%d', t)\<close>: the calendar day of a time, as a day
  number.\<close>

definition sql_date :: "int \<Rightarrow> int" where
  "sql_date t = t div 86400"

subsection \<open>\<open>topProducts\<close>\<close>

text \<open>\<open>FROM sale_items si JOIN products p ON p.id = si.productId\<close>, projected to
  \<open>(p.name, si.quantity)\<close>: an item row with no product row is dropped.\<close>

definition topProducts_join :: "db \<Rightarrow> (string \<times> int) list" where
  "topProducts_join d =
     concat (map (\<lambda>si. map (\<lambda>p. (p_name p, si_quantity si))
                          (filter (\<lambda>p. p_id p = si_productId si) (products d)))
                 (sale_items d))"

text \<open>\<open>SELECT p.name, SUM(si.quantity) as qty ... GROUP BY p.name\<close>: one row per name.\<close>

definition topProducts_groups :: "db \<Rightarrow> (string \<times> int) list" where
  "topProducts_groups d =
     (let rows = topProducts_join d
      in map (\<lambda>n. (n, sum_list (map snd (filter (\<lambda>r. fst r = n) rows))))
             (remdups (map fst rows)))"

text \<open>\<open>ORDER BY qty DESC LIMIT 5\<close>. The query names no second sort key, and SQL leaves
  the order of rows with equal keys unspecified. The model takes that choice as the
  parameter \<open>engine\<close>, a rearrangement of the groups before the sort: every order of the
  rows with equal \<open>qty\<close> is the result for some \<open>engine\<close>, and no statement below says
  which one the store takes.\<close>

definition topProducts ::
  "((string \<times> int) list \<Rightarrow> (string \<times> int) list) \<Rightarrow> db \<Rightarrow> (string \<times> int) list" where
  "topProducts engine d = take 5 (sort_key (\<lambda>r. - snd r) (engine (topProducts_groups d)))"

text \<open>The summed \<open>SaleItem\<close> quantity of one product row.\<close>

definition product_sold :: "db \<Rightarrow> product \<Rightarrow> int" where
  "product_sold d p =
     sum_list (map si_quantity (filter (\<lambda>si. si_productId si = p_id p) (sale_items d)))"

subsection \<open>\<open>salesTrend\<close>\<close>

text \<open>\<open>SELECT strftime('%Y-%m-%d', createdAt) as day, SUM(total) as total FROM sales
  WHERE createdAt >= date('now', '-14 day') GROUP BY day ORDER BY day\<close>. The \<open>WHERE\<close>
  clause compares two texts: \<open>YYYY-MM-DD HH:MM:SS\<close> is at least \<open>YYYY-MM-DD\<close> exactly when
  its day is at least that day.\<close>

definition salesTrend :: "int \<Rightarrow> db \<Rightarrow> (int \<times> real) list" where
  "salesTrend now d =
     (let rows = filter (\<lambda>s. sql_date now - 14 \<le> sql_date (s_createdAt s)) (sales d)
      in map (\<lambda>day. (day, sum_list (map s_total
                                       (filter (\<lambda>s. sql_date (s_createdAt s) = day) rows))))
             (sort (remdups (map (\<lambda>s. sql_date (s_createdAt s)) rows))))"

section \<open>The sales report: \<open>reports/sales\<close>\<close>

text \<open>\<open>FROM sales s LEFT JOIN users u ON u.id = s.userId\<close>, for one sale: one row per
  matching user, and one row with a null \<open>username\<close> when there is none.\<close>

definition leftJoin_users :: "user list \<Rightarrow> sale \<Rightarrow> (sale \<times> string option) list" where
  "leftJoin_users us s =
     (case filter (\<lambda>u. u_id u = s_userId s) us of
        [] \<Rightarrow> [(s, None)]
      | ms \<Rightarrow> map (\<lambda>u. (s, Some (u_username u))) ms)"

text \<open>\<open>WHERE date(createdAt) BETWEEN date(?) AND date(?)\<close>, then \<open>AND s.userId = ?\<close>
  under \<open>if (userId)\<close> (a missing \<open>userId\<close> and the falsy number \<open>0\<close> add no condition),
  then \<open>ORDER BY datetime(createdAt) DESC\<close>, the order of rows with equal keys being
  left to \<open>engine\<close> as above. The two dates are day numbers.\<close>

definition salesReport ::
  "((sale \<times> string option) list \<Rightarrow> (sale \<times> string option) list) \<Rightarrow> db \<Rightarrow>
     int \<Rightarrow> int \<Rightarrow> int option \<Rightarrow> (sale \<times> string option) list" where
  "salesReport engine d fromDate toDate usr =
     (let joined = concat (map (leftJoin_users (users d)) (sales d));
          inRange = filter (\<lambda>r. fromDate \<le> sql_date (s_createdAt (fst r))
                                 \<and> sql_date (s_createdAt (fst r)) \<le> toDate) joined;
          rows = (case usr of
                    None \<Rightarrow> inRange
                  | Some u \<Rightarrow> (if u \<noteq> 0 then filter (\<lambda>r. s_userId (fst r) = u) inRange
                               else inRange))
      in sort_key (\<lambda>r. - s_createdAt (fst r)) (engine rows))"

text \<open>The condition the \<open>WHERE\<close> clause puts on a sale.\<close>

definition report_cond :: "int \<Rightarrow> int \<Rightarrow> int option \<Rightarrow> sale \<Rightarrow> bool" where
  "report_cond fromDate toDate usr s =
     (fromDate \<le> sql_date (s_createdAt s) \<and> sql_date (s_createdAt s) \<le> toDate \<and>
      (case usr of None \<Rightarrow> True | Some u \<Rightarrow> u = 0 \<or> s_userId s = u))"

section \<open>Example data\<close>

text \<open>The store that \<open>initializeDatabase\<close> seeds on first start: one user, five products,
  one customer, one sale with two items. The Arabic product names of the source are
  replaced by English ones. \<open>seed_time\<close> is 10:00 UTC on day 20394.\<close>

definition seed_time :: int where
  "seed_time = 1762077600"

definition seed_products :: "product list" where
  "seed_products =
     [\<lparr>p_id = 1, p_name = ''Classic haircut'', p_barcode = Some ''1110001'', p_price = 35,
        p_cost = 10, p_quantity = 20, p_lowStockThreshold = 5, p_category = Some ''services'',
        p_image = None\<rparr>,
      \<lparr>p_id = 2, p_name = ''Beard shave'', p_barcode = Some ''1110002'', p_price = 25,
        p_cost = 8, p_quantity = 15, p_lowStockThreshold = 5, p_category = Some ''services'',
        p_image = None\<rparr>,
      \<lparr>p_id = 3, p_name = ''Beard care kit'', p_barcode = Some ''1110003'', p_price = 60,
        p_cost = 30, p_quantity = 10, p_lowStockThreshold = 3, p_category = Some ''products'',
        p_image = None\<rparr>,
      \<lparr>p_id = 4, p_name = ''Shaving wax'', p_barcode = Some ''1110004'', p_price = 20,
        p_cost = 5, p_quantity = 25, p_lowStockThreshold = 6, p_category = Some ''products'',
        p_image = None\<rparr>,
      \<lparr>p_id = 5, p_name = ''Moisturising cream'', p_barcode = Some ''1110005'', p_price = 40,
        p_cost = 15, p_quantity = 12, p_lowStockThreshold = 4, p_category = Some ''products'',
        p_image = None\<rparr>]"

definition seed_db :: "bool \<Rightarrow> db" where
  "seed_db fk =
     \<lparr>foreign_keys = fk,
      users = [\<lparr>u_id = 1, u_username = ''admin'', u_password = ''hash'', u_role = ''admin''\<rparr>],
      customers = [1],
      products = seed_products,
      sales = [\<lparr>s_id = 1, s_customerId = Some 1, s_total = 100, s_discount = 5, s_tax = 15,
                s_paymentMethod = Cash, s_paidAmount = 120, s_changeAmount = 20, s_userId = 1,
                s_createdAt = seed_time\<rparr>],
      sales_seq = 1,
      sale_items = [\<lparr>si_id = 1, si_saleId = 1, si_productId = 1, si_quantity = 1, si_price = 35\<rparr>,
                    \<lparr>si_id = 2, si_saleId = 1, si_productId = 3, si_quantity = 1, si_price = 60\<rparr>],
      sale_items_seq = 2\<rparr>"

definition cart_line :: "int \<Rightarrow> real \<Rightarrow> int \<Rightarrow> SaleItemPayload" where
  "cart_line pid price qty = \<lparr>it_id = pid, it_name = [], it_price = price, it_quantity = qty\<rparr>"

definition example_payload :: "SaleItemPayload list \<Rightarrow> real \<Rightarrow> real \<Rightarrow> SalePayload" where
  "example_payload its dsc paid =
     \<lparr>items = its, discount = Some dsc, taxRate = 15 / 100, paymentMethod = Cash,
      paidAmount = paid, customerId = None, userId = 1\<rparr>"

text \<open>Two small stores for the dashboard: in \<open>same_name_db\<close> two product rows carry
  one name; in \<open>ties_db\<close> three products have sold 5, 7 and 7.\<close>

definition product_named :: "int \<Rightarrow> string \<Rightarrow> product" where
  "product_named pid name =
     \<lparr>p_id = pid, p_name = name, p_barcode = None, p_price = 20, p_cost = 5, p_quantity = 10,
      p_lowStockThreshold = 5, p_category = None, p_image = None\<rparr>"

definition sold_line :: "int \<Rightarrow> int \<Rightarrow> int \<Rightarrow> sale_item" where
  "sold_line rowid pid qty =
     \<lparr>si_id = rowid, si_saleId = 1, si_productId = pid, si_quantity = qty, si_price = 20\<rparr>"

definition same_name_db :: db where
  "same_name_db =
     (seed_db False)
       \<lparr>products := [product_named 1 ''Shaving wax'', product_named 2 ''Shaving wax'',
                     product_named 3 ''Beard care kit''],
        sale_items := [sold_line 1 1 2, sold_line 2 2 2, sold_line 3 3 3],
        sale_items_seq := 3\<rparr>"

definition ties_db :: db where
  "ties_db =
     (seed_db False)
       \<lparr>products := [product_named 1 ''A'', product_named 2 ''B'', product_named 3 ''C''],
        sale_items := [sold_line 1 3 7, sold_line 2 1 5, sold_line 3 2 7],
        sale_items_seq := 3\<rparr>"

text \<open>A store with sales on four days around \<open>seed_time\<close>: one 14 days before, one 13
  days before, two on the same day, and one on the day after.\<close>

definition sale_at :: "int \<Rightarrow> int \<Rightarrow> real \<Rightarrow> int \<Rightarrow> sale" where
  "sale_at rowid usr amount t =
     \<lparr>s_id = rowid, s_customerId = None, s_total = amount, s_discount = 0, s_tax = 0,
      s_paymentMethod = Cash, s_paidAmount = amount, s_changeAmount = 0, s_userId = usr,
      s_createdAt = t\<rparr>"

definition trend_db :: db where
  "trend_db =
     (seed_db False)
       \<lparr>sales := [sale_at 1 1 10 (seed_time - 14 * 86400), sale_at 2 1 20 (seed_time - 13 * 86400),
                  sale_at 3 1 30 seed_time, sale_at 4 1 40 (seed_time + 100),
                  sale_at 5 1 50 (seed_time + 86400)],
        sales_seq := 5, sale_items := [], sale_items_seq := 0\<rparr>"

section \<open>The specification's wording\<close>

text \<open>The definitions of this section follow the words of the specification, not the
  code; they are what the handlers are compared with.\<close>

text \<open>``The top 5 products ranked by their summed SaleItem quantity across all recorded
  sales, in descending quantity order, with ties between equal quantities broken by
  product name ascending'': one entry per product row that has been sold.\<close>

definition spec_topProducts :: "db \<Rightarrow> (string \<times> int) list" where
  "spec_topProducts d =
     take 5 (sort_key (\<lambda>r. (- snd r, fst r))
               (map (\<lambda>p. (p_name p, product_sold d p))
                    (filter (\<lambda>p. list_ex (\<lambda>si. si_productId si = p_id p) (sale_items d))
                            (products d))))"

text \<open>``One entry per calendar day in the trailing 14-day window ending at (and
  including) today on which at least one sale exists'': the days \<open>today - 13\<close> to
  \<open>today\<close>.\<close>

definition spec_salesTrend :: "int \<Rightarrow> db \<Rightarrow> (int \<times> real) list" where
  "spec_salesTrend now d =
     (let rows = filter (\<lambda>s. sql_date now - 13 \<le> sql_date (s_createdAt s)
                              \<and> sql_date (s_createdAt s) \<le> sql_date now) (sales d)
      in map (\<lambda>day. (day, sum_list (map s_total
                                       (filter (\<lambda>s. sql_date (s_createdAt s) = day) rows))))
             (sort (remdups (map (\<lambda>s. sql_date (s_createdAt s)) rows))))"

text \<open>``Exactly the Sales whose createdAt date lies in [from, to] inclusive, restricted
  to the given userId when one is supplied''.\<close>

definition spec_salesReport_rows :: "db \<Rightarrow> int \<Rightarrow> int \<Rightarrow> int option \<Rightarrow> sale list" where
  "spec_salesReport_rows d fromDate toDate usr =
     filter (\<lambda>s. fromDate \<le> sql_date (s_createdAt s) \<and> sql_date (s_createdAt s) \<le> toDate
                  \<and> (case usr of None \<Rightarrow> True | Some u \<Rightarrow> s_userId s = u))
            (sales d)"

section \<open>Properties of posting a sale\<close>

subsection \<open>Auxiliary facts\<close>

lemma foldl_add_sum: "foldl (\<lambda>acc x. acc + f x) a xs = a + sum_list (map f xs)" for a :: real
  by (induction xs arbitrary: a) (simp_all add: add.assoc)

lemma subtotal_sum_list:
  "subtotal its = sum_list (map (\<lambda>i. it_price i * of_int (it_quantity i)) its)"
  by (simp add: subtotal_def foldl_add_sum)

lemma fold_max_ge: "x \<in> set ids \<Longrightarrow> x \<le> fold max ids (s::int)"
proof (induction ids arbitrary: s)
  case Nil then show ?case by simp
next
  case (Cons a ids)
  have mono: "s \<le> fold max ids s" for s :: int
    by (induction ids arbitrary: s) (auto intro: order_trans[OF max.cobounded2])
  from Cons show ?case
    by (auto intro: order_trans[OF max.cobounded1 mono])
qed

lemma next_rowid_fresh: "next_rowid s ids \<notin> set ids"
  using fold_max_ge[of "next_rowid s ids" ids s] by (auto simp: next_rowid_def)

lemma insertSale_accepted:
  "header_accepted d p \<Longrightarrow>
     insertSale now p d =
       Inr (d\<lparr>sales := sales d @ [sale_row now p (next_rowid (sales_seq d) (map s_id (sales d)))],
              sales_seq := next_rowid (sales_seq d) (map s_id (sales d))\<rparr>,
            next_rowid (sales_seq d) (map s_id (sales d)))"
  by (auto simp: insertSale_def header_accepted_def Let_def split: if_splits)

lemma insertSale_rejected:
  "\<not> header_accepted d p \<Longrightarrow> insertSale now p d = Inl ForeignKeyFailed"
  by (auto simp: insertSale_def header_accepted_def split: if_splits)

lemma insertItem_Inr:
  "insertItem sid item d = Inr d' \<Longrightarrow>
     d' = d\<lparr>sale_items := sale_items d @ [sale_item_row sid item (next_rowid (sale_items_seq d) (map si_id (sale_items d)))],
            sale_items_seq := next_rowid (sale_items_seq d) (map si_id (sale_items d))\<rparr>"
  by (auto simp: insertItem_def Let_def split: if_splits)

lemma forEach_frame:
  "saleItems_forEach sid its d = Inr d' \<Longrightarrow>
     sales d' = sales d \<and> users d' = users d \<and> customers d' = customers d \<and>
     foreign_keys d' = foreign_keys d \<and> sales_seq d' = sales_seq d"
proof (induction its arbitrary: d)
  case Nil then show ?case by simp
next
  case (Cons item rest)
  then obtain d1 where 1: "insertItem sid item d = Inr d1"
    and 2: "saleItems_forEach sid rest (updateStock item d1) = Inr d'"
    by (auto split: sum.splits)
  from Cons.IH[OF 2] insertItem_Inr[OF 1] show ?case by (simp add: updateStock_def)
qed

lemma forEach_products:
  "saleItems_forEach sid its d = Inr d' \<Longrightarrow>
     products d' = map (\<lambda>p. p\<lparr>p_quantity := p_quantity p - posted_quantity its (p_id p)\<rparr>) (products d)"
proof (induction its arbitrary: d)
  case Nil then show ?case by (simp add: posted_quantity_def)
next
  case (Cons item rest)
  then obtain d1 where 1: "insertItem sid item d = Inr d1"
    and 2: "saleItems_forEach sid rest (updateStock item d1) = Inr d'"
    by (auto split: sum.splits)
  from Cons.IH[OF 2] insertItem_Inr[OF 1] show ?case
    by (auto simp: updateStock_def posted_quantity_def)
qed

lemma forEach_sale_items:
  "saleItems_forEach sid its d = Inr d' \<Longrightarrow>
     \<exists>new. sale_items d' = sale_items d @ new \<and>
       map (\<lambda>r. (si_saleId r, si_productId r, si_quantity r, si_price r)) new =
       map (\<lambda>i. (sid, it_id i, it_quantity i, it_price i)) its"
proof (induction its arbitrary: d)
  case Nil then show ?case by simp
next
  case (Cons item rest)
  then obtain d1 where 1: "insertItem sid item d = Inr d1"
    and 2: "saleItems_forEach sid rest (updateStock item d1) = Inr d'"
    by (auto split: sum.splits)
  let ?row = "sale_item_row sid item (next_rowid (sale_items_seq d) (map si_id (sale_items d)))"
  from insertItem_Inr[OF 1] have r: "sale_items d1 = sale_items d @ [?row]" by simp
  from Cons.IH[OF 2] obtain new where n: "sale_items d' = sale_items (updateStock item d1) @ new"
     "map (\<lambda>r. (si_saleId r, si_productId r, si_quantity r, si_price r)) new =
       map (\<lambda>i. (sid, it_id i, it_quantity i, it_price i)) rest" by blast
  show ?case
    apply (rule exI[of _ "?row # new"])
    using n r by (simp add: updateStock_def sale_item_row_def)
qed

lemma updateStock_ids: "map p_id (products (updateStock item d)) = map p_id (products d)"
  by (simp add: updateStock_def comp_def if_distrib[of p_id])

lemma items_accepted_cong:
  "foreign_keys d' = foreign_keys d \<Longrightarrow> map p_id (products d') = map p_id (products d) \<Longrightarrow>
     items_accepted d' its = items_accepted d its"
  by (simp add: items_accepted_def)

lemma items_accepted_updateStock:
  "items_accepted (updateStock item d) its = items_accepted d its"
  by (rule items_accepted_cong) (simp_all add: updateStock_ids, simp add: updateStock_def)

text \<open>The loop passes exactly when every insert does.\<close>

lemma forEach_accepted:
  "sid \<in> set (map s_id (sales d)) \<Longrightarrow> items_accepted d its \<Longrightarrow>
     \<exists>d'. saleItems_forEach sid its d = Inr d'"
proof (induction its arbitrary: d)
  case Nil then show ?case by simp
next
  case (Cons item rest)
  let ?d1 = "d\<lparr>sale_items := sale_items d @ [sale_item_row sid item (next_rowid (sale_items_seq d) (map si_id (sale_items d)))],
            sale_items_seq := next_rowid (sale_items_seq d) (map si_id (sale_items d))\<rparr>"
  from Cons.prems have 1: "insertItem sid item d = Inr ?d1"
    by (auto simp: insertItem_def items_accepted_def item_refs_def Let_def split: if_splits)
  have "sid \<in> set (map s_id (sales (updateStock item ?d1)))"
    using Cons.prems(1) by (simp add: updateStock_def)
  moreover have "items_accepted ?d1 rest"
    using Cons.prems(2) by (auto simp: items_accepted_def split: if_splits)
  then have "items_accepted (updateStock item ?d1) rest"
    by (simp add: items_accepted_updateStock)
  ultimately obtain d' where "saleItems_forEach sid rest (updateStock item ?d1) = Inr d'"
    using Cons.IH by blast
  with 1 show ?case by simp
qed

lemma forEach_rejected:
  "\<not> items_accepted d its \<Longrightarrow> saleItems_forEach sid its d = Inl ForeignKeyFailed"
proof (induction its arbitrary: d)
  case Nil then show ?case by (simp add: items_accepted_def split: if_splits)
next
  case (Cons item rest)
  show ?case
  proof (cases "insertItem sid item d")
    case (Inl e)
    then show ?thesis by (cases e) simp
  next
    case (Inr d1)
    have "items_accepted d1 rest = items_accepted d rest"
      using insertItem_Inr[OF Inr] by (intro items_accepted_cong) simp_all
    moreover have "\<not> items_accepted d rest"
      using Inr Cons.prems
      by (auto simp: items_accepted_def insertItem_def item_refs_def split: if_splits)
    ultimately have "\<not> items_accepted (updateStock item d1) rest"
      by (simp add: items_accepted_updateStock)
    from Cons.IH[OF this] Inr show ?thesis by simp
  qed
qed

text \<open>The three outcomes of the handler.\<close>

lemma createSale_header_rejected:
  "\<not> header_accepted d p \<Longrightarrow> createSale now d p = (d, Inl ForeignKeyFailed)"
  by (simp add: createSale_def insertSale_rejected)

lemma createSale_items_rejected:
  "header_accepted d p \<Longrightarrow> \<not> items_accepted d (items p) \<Longrightarrow>
     createSale now d p = (with_header now d p, Inl ForeignKeyFailed)"
proof -
  assume h: "header_accepted d p" and i: "\<not> items_accepted d (items p)"
  have "items_accepted (with_header now d p) (items p) = items_accepted d (items p)"
    by (intro items_accepted_cong) (simp_all add: with_header_def)
  with i have "\<not> items_accepted (with_header now d p) (items p)" by simp
  from forEach_rejected[OF this] show ?thesis
    by (simp add: createSale_def insertSale_accepted[OF h] transaction_def with_header_def)
qed

lemma createSale_accepted:
  assumes h: "header_accepted d p" and i: "items_accepted d (items p)"
  shows "\<exists>d'. saleItems_forEach (next_rowid (sales_seq d) (map s_id (sales d))) (items p)
                 (with_header now d p) = Inr d' \<and>
               createSale now d p =
                 (d', Inr \<lparr>r_saleId = next_rowid (sales_seq d) (map s_id (sales d)),
                          r_total = total p, r_taxValue = taxValue p,
                          r_discountValue = discountValue (discount p),
                          r_changeAmount = changeAmount p\<rparr>)"
proof -
  let ?sid = "next_rowid (sales_seq d) (map s_id (sales d))"
  have "?sid \<in> set (map s_id (sales (with_header now d p)))"
    by (simp add: with_header_def sale_row_def)
  moreover have "items_accepted (with_header now d p) (items p) = items_accepted d (items p)"
    by (intro items_accepted_cong) (simp_all add: with_header_def)
  with i have "items_accepted (with_header now d p) (items p)" by simp
  ultimately obtain d' where
    "saleItems_forEach ?sid (items p) (with_header now d p) = Inr d'"
    using forEach_accepted by blast
  then show ?thesis
    by (simp add: createSale_def insertSale_accepted[OF h] transaction_def with_header_def)
qed

lemma createSale_Inr:
  assumes "createSale now d p = (d', Inr r)"
  shows "header_accepted d p \<and> items_accepted d (items p) \<and>
         saleItems_forEach (next_rowid (sales_seq d) (map s_id (sales d))) (items p)
                 (with_header now d p) = Inr d' \<and>
         r = \<lparr>r_saleId = next_rowid (sales_seq d) (map s_id (sales d)),
                          r_total = total p, r_taxValue = taxValue p,
                          r_discountValue = discountValue (discount p),
                          r_changeAmount = changeAmount p\<rparr>"
proof -
  have h: "header_accepted d p"
    using assms createSale_header_rejected[of d p now] by auto
  have i: "items_accepted d (items p)"
    using assms createSale_items_rejected[OF h, of now] by auto
  from createSale_accepted[OF h i, of now] assms h i show ?thesis by auto
qed

lemmas createSale_eval =
  createSale_def insertSale_def transaction_def insertItem_def updateStock_def
  seed_db_def seed_products_def example_payload_def cart_line_def sale_refs_def item_refs_def
  customerId_or_null_def next_rowid_def sale_row_def sale_item_row_def total_def taxValue_def
  discountValue_def changeAmount_def subtotal_def Let_def

lemma forEach_with_header_sales:
  "saleItems_forEach sid its (with_header now d p) = Inr d' \<Longrightarrow>
     sales d' = sales d @ [sale_row now p (next_rowid (sales_seq d) (map s_id (sales d)))]"
  using forEach_frame[of sid its "with_header now d p" d'] by (simp add: with_header_def)

lemma seed_accepts:
  "header_accepted (seed_db fk) (example_payload its dsc paid)"
  "items_accepted (seed_db True) its = list_all (\<lambda>i. it_id i \<in> {1, 2, 3, 4, 5}) its"
  "items_accepted (seed_db False) its"
  by (simp_all add: header_accepted_def items_accepted_def seed_db_def seed_products_def
        example_payload_def sale_refs_def customerId_or_null_def)

lemma createSale_products:
  assumes "createSale now d p = (d', Inr r)"
  shows "products d' =
           map (\<lambda>pr. pr\<lparr>p_quantity := p_quantity pr - posted_quantity (items p) (p_id pr)\<rparr>)
               (products d)"
proof -
  from createSale_Inr[OF assms] have
    "saleItems_forEach (next_rowid (sales_seq d) (map s_id (sales d))) (items p)
       (with_header now d p) = Inr d'"
    by simp
  from forEach_products[OF this] show ?thesis by (simp add: with_header_def)
qed

text \<open>Two posts one after the other, in either order, lower every stock by the sum of
  what both carts post: no decrement is lost when the posts are serialised.\<close>

lemma createSale_twice_stock:
  assumes "createSale t1 d p1 = (d1, Inr r1)" and "createSale t2 d1 p2 = (d2, Inr r2)"
  shows "map (\<lambda>pr. (p_id pr, p_quantity pr)) (products d2) =
           map (\<lambda>pr. (p_id pr, p_quantity pr - posted_quantity (items p1) (p_id pr)
                                              - posted_quantity (items p2) (p_id pr)))
               (products d)"
  by (simp add: createSale_products[OF assms(1)] createSale_products[OF assms(2)] comp_def)

subsection \<open>Atomicity\<close>

text \<open>
  Claim C1: posting a sale is all-or-nothing; when a step of the commit fails, the store
  holds no header row, no item rows and no stock change of that attempt.

  The handler does not do this. Against the seeded store with foreign keys enforced, a
  cart whose second line names product 99 (no such row) raises at the second item insert.
  The transaction rolls the first line's item row and stock decrement back, but the
  header row with id 2 was inserted before the transaction began and stays: the store
  afterwards is the seeded store with that header row added, and nothing else.
\<close>

theorem createSale_failed_items_keep_header:
  "createSale (seed_time + 60) (seed_db True)
       (example_payload [cart_line 1 35 1, cart_line 99 60 1] 5 120) =
     ((seed_db True)
        \<lparr>sales := sales (seed_db True) @
           [\<lparr>s_id = 2, s_customerId = None, s_total = 207 / 2, s_discount = 5, s_tax = 27 / 2,
             s_paymentMethod = Cash, s_paidAmount = 120, s_changeAmount = 33 / 2, s_userId = 1,
             s_createdAt = seed_time + 60\<rparr>],
         sales_seq := 2\<rparr>,
      Inl ForeignKeyFailed)"
  by (simp add: createSale_eval)

subsection \<open>Validation\<close>

text \<open>
  Claim C2 (as stated): an empty cart, a line with quantity at most 0 or an unknown
  product makes the handler return a validation error and leave the store unchanged.

  The handler has no validation. Posting an empty cart against the seeded store
  succeeds with sale id 2, and the \<open>sales\<close> table has changed.
\<close>

theorem createSale_empty_cart_counterexample:
  "snd (createSale (seed_time + 60) (seed_db True) (example_payload [] 0 0)) =
     Inr \<lparr>r_saleId = 2, r_total = 0, r_taxValue = 0, r_discountValue = 0, r_changeAmount = 0\<rparr>
   \<and> sales (fst (createSale (seed_time + 60) (seed_db True) (example_payload [] 0 0))) \<noteq>
       sales (seed_db True)"
  by (simp add: createSale_eval)

text \<open>
  Claim C2 (amended): the handler checks nothing before it writes, and the only refusal
  is the store's foreign-key check. If the header's references are refused, the call
  fails and the store is unchanged. If the product reference of some line is refused,
  the call fails, and no item row and no stock change of the attempt remain. In every
  other case (an empty cart and lines with quantity at most 0 included) the call
  succeeds: the header row is in, there is one item row per line, and every product's
  stock is reduced by the quantity the cart posts for its id.
\<close>

theorem createSale_no_validation:
  "(\<not> header_accepted d p \<longrightarrow> createSale now d p = (d, Inl ForeignKeyFailed)) \<and>
   (header_accepted d p \<and> \<not> items_accepted d (items p) \<longrightarrow>
      snd (createSale now d p) = Inl ForeignKeyFailed \<and>
      sale_items (fst (createSale now d p)) = sale_items d \<and>
      products (fst (createSale now d p)) = products d) \<and>
   (header_accepted d p \<and> items_accepted d (items p) \<longrightarrow>
      (\<exists>d' r new. createSale now d p = (d', Inr r) \<and>
         sales d' = sales (with_header now d p) \<and>
         sale_items d' = sale_items d @ new \<and>
         map (\<lambda>row. (si_saleId row, si_productId row, si_quantity row, si_price row)) new =
           map (\<lambda>i. (r_saleId r, it_id i, it_quantity i, it_price i)) (items p) \<and>
         products d' =
           map (\<lambda>pr. pr\<lparr>p_quantity := p_quantity pr - posted_quantity (items p) (p_id pr)\<rparr>)
               (products d)))"
proof (intro conjI impI)
  assume "\<not> header_accepted d p"
  then show "createSale now d p = (d, Inl ForeignKeyFailed)"
    by (rule createSale_header_rejected)
next
  assume "header_accepted d p \<and> \<not> items_accepted d (items p)"
  then have r: "createSale now d p = (with_header now d p, Inl ForeignKeyFailed)"
    by (simp add: createSale_items_rejected)
  show "snd (createSale now d p) = Inl ForeignKeyFailed" by (simp add: r)
  show "sale_items (fst (createSale now d p)) = sale_items d"
    by (simp add: r with_header_def)
  show "products (fst (createSale now d p)) = products d"
    by (simp add: r with_header_def)
next
  assume a: "header_accepted d p \<and> items_accepted d (items p)"
  let ?sid = "next_rowid (sales_seq d) (map s_id (sales d))"
  from a createSale_accepted[of d p now] obtain d' r where
    loop: "saleItems_forEach ?sid (items p) (with_header now d p) = Inr d'" and
    res: "createSale now d p = (d', Inr r)" and sid: "r_saleId r = ?sid"
    by auto
  from forEach_sale_items[OF loop] obtain new where
    new: "sale_items d' = sale_items d @ new"
      "map (\<lambda>row. (si_saleId row, si_productId row, si_quantity row, si_price row)) new =
       map (\<lambda>i. (?sid, it_id i, it_quantity i, it_price i)) (items p)"
    by (auto simp: with_header_def)
  have "sales d' = sales (with_header now d p)"
    using forEach_frame[OF loop] by simp
  moreover have "products d' =
      map (\<lambda>pr. pr\<lparr>p_quantity := p_quantity pr - posted_quantity (items p) (p_id pr)\<rparr>) (products d)"
    using forEach_products[OF loop] by (simp add: with_header_def)
  ultimately show "\<exists>d' r new. createSale now d p = (d', Inr r) \<and>
         sales d' = sales (with_header now d p) \<and>
         sale_items d' = sale_items d @ new \<and>
         map (\<lambda>row. (si_saleId row, si_productId row, si_quantity row, si_price row)) new =
           map (\<lambda>i. (r_saleId r, it_id i, it_quantity i, it_price i)) (items p) \<and>
         products d' =
           map (\<lambda>pr. pr\<lparr>p_quantity := p_quantity pr - posted_quantity (items p) (p_id pr)\<rparr>)
               (products d)"
    using res new sid by (intro exI[of _ d'] exI[of _ r] exI[of _ new]) simp
qed

theorem createSale_no_validation_witness:
  "(header_accepted (seed_db True) (example_payload [cart_line 4 20 (- 2)] 0 0) \<and>
    items_accepted (seed_db True) (items (example_payload [cart_line 4 20 (- 2)] 0 0)) \<and>
    (\<exists>d' r. createSale (seed_time + 60) (seed_db True) (example_payload [cart_line 4 20 (- 2)] 0 0)
               = (d', Inr r) \<and>
            map p_quantity (products d') = [20, 15, 10, 27, 12])) \<and>
   (header_accepted (seed_db True) (example_payload [cart_line 99 60 1] 0 0) \<and>
    \<not> items_accepted (seed_db True) (items (example_payload [cart_line 99 60 1] 0 0)) \<and>
    snd (createSale (seed_time + 60) (seed_db True) (example_payload [cart_line 99 60 1] 0 0)) =
      Inl ForeignKeyFailed \<and>
    sale_items (fst (createSale (seed_time + 60) (seed_db True)
                       (example_payload [cart_line 99 60 1] 0 0))) =
      sale_items (seed_db True) \<and>
    products (fst (createSale (seed_time + 60) (seed_db True)
                     (example_payload [cart_line 99 60 1] 0 0))) =
      products (seed_db True)) \<and>
   (\<not> header_accepted (seed_db True) ((example_payload [] 0 0)\<lparr>userId := 7\<rparr>) \<and>
    createSale (seed_time + 60) (seed_db True) ((example_payload [] 0 0)\<lparr>userId := 7\<rparr>) =
      (seed_db True, Inl ForeignKeyFailed))"
proof (intro conjI)
  let ?p = "example_payload [cart_line 4 20 (- 2)] 0 0"
  show h: "header_accepted (seed_db True) ?p" by (rule seed_accepts)
  show i: "items_accepted (seed_db True) (items ?p)"
    by (simp add: seed_accepts example_payload_def cart_line_def)
  from createSale_no_validation[of "seed_db True" ?p "seed_time + 60"] h i
  obtain d' r where
    "createSale (seed_time + 60) (seed_db True) ?p = (d', Inr r)"
    "products d' =
       map (\<lambda>pr. pr\<lparr>p_quantity := p_quantity pr - posted_quantity (items ?p) (p_id pr)\<rparr>)
           (products (seed_db True))"
    by blast
  then show "\<exists>d' r. createSale (seed_time + 60) (seed_db True) ?p = (d', Inr r) \<and>
            map p_quantity (products d') = [20, 15, 10, 27, 12]"
    by (intro exI[of _ d'] exI[of _ r])
       (simp add: posted_quantity_def seed_db_def seed_products_def example_payload_def cart_line_def)
next
  let ?p = "example_payload [cart_line 99 60 1] 0 0"
  show h: "header_accepted (seed_db True) ?p" by (rule seed_accepts)
  show i: "\<not> items_accepted (seed_db True) (items ?p)"
    by (simp add: seed_accepts example_payload_def cart_line_def)
  from createSale_no_validation[of "seed_db True" ?p "seed_time + 60"] h i
  have r: "snd (createSale (seed_time + 60) (seed_db True) ?p) = Inl ForeignKeyFailed \<and>
      sale_items (fst (createSale (seed_time + 60) (seed_db True) ?p)) =
        sale_items (seed_db True) \<and>
      products (fst (createSale (seed_time + 60) (seed_db True) ?p)) = products (seed_db True)"
    by blast
  from r show "snd (createSale (seed_time + 60) (seed_db True) ?p) = Inl ForeignKeyFailed"
    by (rule conjunct1)
  from r show "sale_items (fst (createSale (seed_time + 60) (seed_db True) ?p)) =
        sale_items (seed_db True)"
    by blast
  from r show "products (fst (createSale (seed_time + 60) (seed_db True) ?p)) =
        products (seed_db True)"
    by blast
next
  let ?p = "(example_payload [] 0 0)\<lparr>userId := 7\<rparr>"
  show h: "\<not> header_accepted (seed_db True) ?p"
    by (simp add: header_accepted_def seed_db_def example_payload_def sale_refs_def)
  from createSale_no_validation[of "seed_db True" ?p "seed_time + 60"] h
  show "createSale (seed_time + 60) (seed_db True) ?p = (seed_db True, Inl ForeignKeyFailed)"
    by blast
qed

subsection \<open>Tax\<close>

text \<open>
  Claim C3 (as stated): the tax is \<open>max(0, subtotal - discount) * taxRate\<close>, never
  negative.

  One line of 35 with a discount of 50 at the rate 0.15 gives the tax -2.25, where the
  clamped formula gives 0.
\<close>

theorem createSale_tax_counterexample:
  "snd (createSale (seed_time + 60) (seed_db True) (example_payload [cart_line 1 35 1] 50 0)) =
     Inr \<lparr>r_saleId = 2, r_total = - (69 / 4), r_taxValue = - (9 / 4), r_discountValue = 50,
          r_changeAmount = 69 / 4\<rparr>
   \<and> max 0 (subtotal (items (example_payload [cart_line 1 35 1] 50 0)) - 50)
        * taxRate (example_payload [cart_line 1 35 1] 50 0) = 0"
  by (simp add: createSale_eval)

text \<open>
  Claim C3 (amended): the tax returned and recorded by a successful post is
  \<open>(subtotal - discount) * taxRate\<close> with no clamp, where \<open>subtotal\<close> is the sum of
  price times quantity over the lines and a missing discount counts as 0. It equals
  \<open>max(0, subtotal - discount) * taxRate\<close> whenever the discount does not exceed the
  subtotal; when it does and the rate is positive, the tax is negative.
\<close>

theorem createSale_tax:
  assumes "createSale now d p = (d', Inr r)"
  shows "r_taxValue r = (subtotal (items p) - r_discountValue r) * taxRate p \<and>
         subtotal (items p) = (\<Sum>i\<leftarrow>items p. it_price i * of_int (it_quantity i)) \<and>
         r_discountValue r = (case discount p of None \<Rightarrow> 0 | Some v \<Rightarrow> v) \<and>
         (\<exists>hdr. sales d' = sales d @ [hdr] \<and> s_id hdr = r_saleId r \<and> s_tax hdr = r_taxValue r) \<and>
         (r_discountValue r \<le> subtotal (items p) \<longrightarrow>
            r_taxValue r = max 0 (subtotal (items p) - r_discountValue r) * taxRate p) \<and>
         (subtotal (items p) < r_discountValue r \<and> 0 < taxRate p \<longrightarrow> r_taxValue r < 0)"
proof -
  let ?sid = "next_rowid (sales_seq d) (map s_id (sales d))"
  from createSale_Inr[OF assms] have
    loop: "saleItems_forEach ?sid (items p) (with_header now d p) = Inr d'" and
    r: "r = \<lparr>r_saleId = ?sid, r_total = total p, r_taxValue = taxValue p,
             r_discountValue = discountValue (discount p), r_changeAmount = changeAmount p\<rparr>"
    by simp_all
  have 1: "r_taxValue r = (subtotal (items p) - r_discountValue r) * taxRate p"
    by (simp add: r taxValue_def)
  have 2: "r_discountValue r = (case discount p of None \<Rightarrow> 0 | Some v \<Rightarrow> v)"
    by (simp add: r discountValue_def split: option.splits)
  have 3: "\<exists>hdr. sales d' = sales d @ [hdr] \<and> s_id hdr = r_saleId r \<and> s_tax hdr = r_taxValue r"
    using forEach_with_header_sales[OF loop] by (simp add: r sale_row_def)
  have 4: "r_discountValue r \<le> subtotal (items p) \<longrightarrow>
            r_taxValue r = max 0 (subtotal (items p) - r_discountValue r) * taxRate p"
    by (simp add: 1 max_def)
  have 5: "subtotal (items p) < r_discountValue r \<and> 0 < taxRate p \<longrightarrow> r_taxValue r < 0"
    by (simp add: 1 mult_neg_pos)
  from 1 2 3 4 5 subtotal_sum_list show ?thesis by blast
qed

theorem createSale_tax_witness:
  "snd (createSale (seed_time + 60) (seed_db True)
          (example_payload [cart_line 1 35 1, cart_line 3 60 1] 5 120)) =
     Inr \<lparr>r_saleId = 2, r_total = 207 / 2, r_taxValue = 27 / 2, r_discountValue = 5,
          r_changeAmount = 33 / 2\<rparr> \<and>
   (27 / 2 :: real) = (subtotal [cart_line 1 35 1, cart_line 3 60 1] - 5) * (15 / 100) \<and>
   (27 / 2 :: real) = max 0 (subtotal [cart_line 1 35 1, cart_line 3 60 1] - 5) * (15 / 100)"
proof -
  let ?p = "example_payload [cart_line 1 35 1, cart_line 3 60 1] 5 120"
  let ?r = "\<lparr>r_saleId = 2, r_total = 207 / 2, r_taxValue = 27 / 2, r_discountValue = 5,
           r_changeAmount = 33 / 2\<rparr>"
  have s: "snd (createSale (seed_time + 60) (seed_db True) ?p) = Inr ?r"
    by (simp add: createSale_eval)
  then obtain d' where ev: "createSale (seed_time + 60) (seed_db True) ?p = (d', Inr ?r)"
    by (cases "createSale (seed_time + 60) (seed_db True) ?p") simp
  have le: "r_discountValue ?r \<le> subtotal (items ?p)"
    by (simp add: example_payload_def cart_line_def subtotal_def)
  from createSale_tax[OF ev] le have
    "r_taxValue ?r = (subtotal (items ?p) - r_discountValue ?r) * taxRate ?p"
    "r_taxValue ?r = max 0 (subtotal (items ?p) - r_discountValue ?r) * taxRate ?p"
    by blast+
  with s show ?thesis
    by (simp add: example_payload_def)
qed

subsection \<open>Total and change\<close>

text \<open>
  Claim C4: a post returns and records \<open>total = (subtotal - discount) + tax\<close> and
  \<open>changeAmount = paidAmount - total\<close>, where \<open>subtotal\<close> is the sum of price times
  quantity over the lines; a negative change is returned like any other.

  Whether the store accepts the sale depends on its references only, never on an
  amount: whenever it does, the handler returns, and the amounts it returns and the
  ones in the new header row are these. The example after the theorem pays 100 for a
  total of 103.5 and gets the change -3.5 back.
\<close>

theorem createSale_total_change:
  assumes "header_accepted d p" and "items_accepted d (items p)"
  shows "\<exists>d' r hdr. createSale now d p = (d', Inr r) \<and>
           subtotal (items p) = (\<Sum>i\<leftarrow>items p. it_price i * of_int (it_quantity i)) \<and>
           r_discountValue r = (case discount p of None \<Rightarrow> 0 | Some v \<Rightarrow> v) \<and>
           r_total r = (subtotal (items p) - r_discountValue r) + r_taxValue r \<and>
           r_changeAmount r = paidAmount p - r_total r \<and>
           sales d' = sales d @ [hdr] \<and> s_id hdr = r_saleId r \<and>
           s_total hdr = r_total r \<and> s_changeAmount hdr = r_changeAmount r \<and>
           s_paidAmount hdr = paidAmount p \<and> s_discount hdr = r_discountValue r \<and>
           s_tax hdr = r_taxValue r"
proof -
  let ?sid = "next_rowid (sales_seq d) (map s_id (sales d))"
  let ?r = "\<lparr>r_saleId = ?sid, r_total = total p, r_taxValue = taxValue p,
             r_discountValue = discountValue (discount p), r_changeAmount = changeAmount p\<rparr>"
  from createSale_accepted[OF assms, of now] obtain d' where
    loop: "saleItems_forEach ?sid (items p) (with_header now d p) = Inr d'" and
    res: "createSale now d p = (d', Inr ?r)"
    by blast
  have hdr: "sales d' = sales d @ [sale_row now p ?sid]"
    by (rule forEach_with_header_sales[OF loop])
  have dv: "discountValue (discount p) = (case discount p of None \<Rightarrow> 0 | Some v \<Rightarrow> v)"
    by (simp add: discountValue_def split: option.splits)
  show ?thesis
    by (intro exI[of _ d'] exI[of _ ?r] exI[of _ "sale_row now p ?sid"])
       (simp add: res hdr dv subtotal_sum_list sale_row_def total_def changeAmount_def)
qed

theorem createSale_total_change_witness:
  "header_accepted (seed_db True) (example_payload [cart_line 1 35 1, cart_line 3 60 1] 5 100) \<and>
   items_accepted (seed_db True)
     (items (example_payload [cart_line 1 35 1, cart_line 3 60 1] 5 100)) \<and>
   snd (createSale (seed_time + 60) (seed_db True)
          (example_payload [cart_line 1 35 1, cart_line 3 60 1] 5 100)) =
     Inr \<lparr>r_saleId = 2, r_total = 207 / 2, r_taxValue = 27 / 2, r_discountValue = 5,
          r_changeAmount = - (7 / 2)\<rparr> \<and>
   (207 / 2 :: real) = (subtotal [cart_line 1 35 1, cart_line 3 60 1] - 5) + 27 / 2 \<and>
   (- (7 / 2) :: real) = 100 - 207 / 2"
proof -
  let ?p = "example_payload [cart_line 1 35 1, cart_line 3 60 1] 5 100"
  have h: "header_accepted (seed_db True) ?p" by (rule seed_accepts)
  have i: "items_accepted (seed_db True) (items ?p)"
    by (simp add: seed_accepts example_payload_def cart_line_def)
  from createSale_total_change[OF h i, of "seed_time + 60"] obtain d' r where
    ev: "createSale (seed_time + 60) (seed_db True) ?p = (d', Inr r)" and
    tot: "r_total r = (subtotal (items ?p) - r_discountValue r) + r_taxValue r" and
    chg: "r_changeAmount r = paidAmount ?p - r_total r"
    by blast
  have s: "snd (createSale (seed_time + 60) (seed_db True) ?p) =
     Inr \<lparr>r_saleId = 2, r_total = 207 / 2, r_taxValue = 27 / 2, r_discountValue = 5,
          r_changeAmount = - (7 / 2)\<rparr>"
    by (simp add: createSale_eval)
  with ev have r: "r = \<lparr>r_saleId = 2, r_total = 207 / 2, r_taxValue = 27 / 2, r_discountValue = 5,
          r_changeAmount = - (7 / 2)\<rparr>" by simp
  from tot chg show ?thesis
    unfolding r using h i s by (simp add: example_payload_def)
qed

subsection \<open>Stock\<close>

text \<open>
  Claim C5: after a successful post, the quantity of every product the cart references
  has gone down by exactly the quantity posted for it (over all lines with its id), and
  every other product row, and every other field of every product row, is unchanged.
\<close>

theorem createSale_stock_frame:
  assumes "createSale now d p = (d', Inr r)"
  shows "products d' =
           map (\<lambda>pr. pr\<lparr>p_quantity := p_quantity pr - posted_quantity (items p) (p_id pr)\<rparr>)
               (products d) \<and>
         (\<forall>pr \<in> set (products d). p_id pr \<notin> set (map it_id (items p)) \<longrightarrow>
            pr\<lparr>p_quantity := p_quantity pr - posted_quantity (items p) (p_id pr)\<rparr> = pr)"
proof -
  have "posted_quantity its pid = 0" if "pid \<notin> set (map it_id its)" for its pid
  proof -
    from that have "filter (\<lambda>i. it_id i = pid) its = []"
      by (auto simp: filter_empty_conv)
    then show ?thesis by (simp add: posted_quantity_def)
  qed
  with createSale_products[OF assms] show ?thesis by simp
qed

theorem createSale_stock_frame_witness:
  "\<exists>d'. createSale (seed_time + 60) (seed_db True)
          (example_payload [cart_line 1 35 2, cart_line 3 60 1, cart_line 1 35 1] 5 200) =
     (d', Inr \<lparr>r_saleId = 2, r_total = 368 / 2, r_taxValue = 24, r_discountValue = 5,
          r_changeAmount = 16\<rparr>) \<and>
     map p_quantity (products d') = [17, 15, 9, 25, 12] \<and>
     map p_name (products d') = map p_name seed_products"
proof -
  let ?p = "example_payload [cart_line 1 35 2, cart_line 3 60 1, cart_line 1 35 1] 5 200"
  let ?r = "\<lparr>r_saleId = 2, r_total = 368 / 2, r_taxValue = 24, r_discountValue = 5,
          r_changeAmount = 16\<rparr>"
  have "snd (createSale (seed_time + 60) (seed_db True) ?p) = Inr ?r"
    by (simp add: createSale_eval)
  then obtain d' where ev: "createSale (seed_time + 60) (seed_db True) ?p = (d', Inr ?r)"
    by (cases "createSale (seed_time + 60) (seed_db True) ?p") simp
  from createSale_stock_frame[OF ev] have
    "products d' =
       map (\<lambda>pr. pr\<lparr>p_quantity := p_quantity pr - posted_quantity (items ?p) (p_id pr)\<rparr>)
           (products (seed_db True))"
    by blast
  then have "map p_quantity (products d') = [17, 15, 9, 25, 12] \<and>
     map p_name (products d') = map p_name seed_products"
    by (simp add: posted_quantity_def seed_db_def seed_products_def example_payload_def
          cart_line_def)
  with ev show ?thesis by (intro exI[of _ d']) simp
qed

section \<open>Properties of the dashboard\<close>

subsection \<open>Auxiliary facts\<close>

lemma sum_list_swap_lists:
  "(\<Sum>x\<leftarrow>xs. \<Sum>y\<leftarrow>ys. f x y) = (\<Sum>y\<leftarrow>ys. \<Sum>x\<leftarrow>xs. (f x y :: int))"
  by (induction xs) (simp_all add: sum_list_addf)

lemma topProducts_groups_names: "map fst (topProducts_groups d) = remdups (map fst (topProducts_join d))"
  by (simp add: topProducts_groups_def Let_def comp_def)

lemma topProducts_groups_distinct: "distinct (map fst (topProducts_groups d))"
  by (simp add: topProducts_groups_names)

lemma topProducts_groups_qty:
  "(n, q) \<in> set (topProducts_groups d) \<Longrightarrow>
     q = sum_list (map snd (filter (\<lambda>r. fst r = n) (topProducts_join d)))"
  by (auto simp: topProducts_groups_def Let_def)

lemma join_rows_of_item:
  "sum_list (map snd (filter (\<lambda>r. fst r = n)
       (map (\<lambda>p. (p_name p, q)) (filter (\<lambda>p. p_id p = k) ps)))) =
   (\<Sum>p\<leftarrow>ps. if p_id p = k \<and> p_name p = n then q else (0::int))"
  by (induction ps) simp_all

lemma topProducts_join_sum:
  "sum_list (map snd (filter (\<lambda>r. fst r = n) (topProducts_join d))) =
   (\<Sum>si\<leftarrow>sale_items d. \<Sum>p\<leftarrow>products d.
      if p_id p = si_productId si \<and> p_name p = n then si_quantity si else 0)"
proof -
  have "sum_list (map snd (filter (\<lambda>r. fst r = n)
          (concat (map (\<lambda>si. map (\<lambda>p. (p_name p, si_quantity si))
                          (filter (\<lambda>p. p_id p = si_productId si) ps)) sis)))) =
        (\<Sum>si\<leftarrow>sis. \<Sum>p\<leftarrow>ps.
           if p_id p = si_productId si \<and> p_name p = n then si_quantity si else 0)" for sis ps
    by (induction sis) (simp_all add: join_rows_of_item)
  then show ?thesis by (simp add: topProducts_join_def)
qed

lemma sold_by_name_sum:
  "sum_list (map (product_sold d) (filter (\<lambda>p. p_name p = n) (products d))) =
   (\<Sum>p\<leftarrow>products d. \<Sum>si\<leftarrow>sale_items d.
      if p_id p = si_productId si \<and> p_name p = n then si_quantity si else 0)"
proof -
  have "product_sold d p = (\<Sum>si\<leftarrow>sale_items d. if si_productId si = p_id p then si_quantity si else 0)" for p
    by (simp add: product_sold_def sum_list_map_filter')
  then have "sum_list (map (product_sold d) (filter (\<lambda>p. p_name p = n) ps)) =
     (\<Sum>p\<leftarrow>ps. \<Sum>si\<leftarrow>sale_items d.
      if p_id p = si_productId si \<and> p_name p = n then si_quantity si else 0)" for ps
    by (induction ps) (simp_all add: eq_commute[of "si_productId _"] cong: if_cong)
  then show ?thesis by simp
qed

text \<open>A group's quantity is the sum of what the product rows of that name have sold.\<close>

lemma topProducts_groups_merge:
  "(n, q) \<in> set (topProducts_groups d) \<Longrightarrow>
     q = sum_list (map (product_sold d) (filter (\<lambda>p. p_name p = n) (products d)))"
proof -
  assume "(n, q) \<in> set (topProducts_groups d)"
  then have "q = sum_list (map snd (filter (\<lambda>r. fst r = n) (topProducts_join d)))"
    by (rule topProducts_groups_qty)
  also have "\<dots> = (\<Sum>si\<leftarrow>sale_items d. \<Sum>p\<leftarrow>products d.
      if p_id p = si_productId si \<and> p_name p = n then si_quantity si else 0)"
    by (rule topProducts_join_sum)
  also have "\<dots> = (\<Sum>p\<leftarrow>products d. \<Sum>si\<leftarrow>sale_items d.
      if p_id p = si_productId si \<and> p_name p = n then si_quantity si else 0)"
    by (rule sum_list_swap_lists)
  also have "\<dots> = sum_list (map (product_sold d) (filter (\<lambda>p. p_name p = n) (products d)))"
    by (rule sold_by_name_sum[symmetric])
  finally show ?thesis .
qed

lemmas dashboard_eval =
  topProducts_def topProducts_groups_def topProducts_join_def product_sold_def
  same_name_db_def ties_db_def seed_db_def product_named_def sold_line_def Let_def

lemma topProducts_join_names:
  "set (map fst (topProducts_join d)) =
     {n. \<exists>p\<in>set (products d). p_name p = n \<and>
           (\<exists>si\<in>set (sale_items d). si_productId si = p_id p)}"
proof -
  have "set (map fst (topProducts_join d)) =
     {p_name p | p si. si \<in> set (sale_items d) \<and> p \<in> set (products d) \<and>
                       p_id p = si_productId si}"
    by (auto simp: topProducts_join_def image_iff) blast
  also have "\<dots> = {n. \<exists>p\<in>set (products d). p_name p = n \<and>
           (\<exists>si\<in>set (sale_items d). si_productId si = p_id p)}"
    by (safe; metis)
  finally show ?thesis .
qed

lemma sorted_desc_sort_key:
  "sorted_wrt (\<lambda>a b. snd b \<le> snd a) (sort_key (\<lambda>r. - snd r) (xs :: ('a \<times> int) list))"
proof -
  have "sorted (map (\<lambda>r. - snd r) (sort_key (\<lambda>r. - snd r) xs))"
    by (rule sorted_sort_key)
  then show ?thesis by (simp add: sorted_map)
qed

lemma topProducts_subset:
  assumes "mset (engine (topProducts_groups d)) = mset (topProducts_groups d)"
  shows "set (topProducts engine d) \<subseteq> set (topProducts_groups d)"
proof -
  have "set (sort_key (\<lambda>r. - snd r) (engine (topProducts_groups d))) = set (topProducts_groups d)"
    using assms by (metis mset_sort set_mset_mset)
  then show ?thesis
    unfolding topProducts_def using set_take_subset by fastforce
qed

lemma topProducts_distinct_names:
  assumes "mset (engine (topProducts_groups d)) = mset (topProducts_groups d)"
  shows "distinct (map fst (topProducts engine d))"
proof -
  let ?ys = "sort_key (\<lambda>r. - snd r) (engine (topProducts_groups d))"
  have "mset (map fst ?ys) = mset (map fst (topProducts_groups d))"
    using assms by simp
  then have "distinct (map fst ?ys)"
    using topProducts_groups_distinct[of d] mset_eq_imp_distinct_iff by blast
  then show ?thesis
    by (simp add: topProducts_def take_map[symmetric])
qed

text \<open>In a list in descending order of quantity, a row is among the first \<open>k\<close> as soon as
  at most \<open>k\<close> rows have at least its quantity.\<close>

lemma sorted_desc_in_take:
  fixes ys :: "('a \<times> int) list"
  assumes srt: "sorted_wrt (\<lambda>a b. snd b \<le> snd a) ys"
    and mem: "x \<in> set ys"
    and cnt: "length (filter (\<lambda>g. snd x \<le> snd g) ys) \<le> k"
  shows "x \<in> set (take k ys)"
proof -
  from mem obtain i where i: "i < length ys" "ys ! i = x"
    by (auto simp: in_set_conv_nth)
  have all: "\<forall>g \<in> set (take (Suc i) ys). snd x \<le> snd g"
  proof
    fix g assume "g \<in> set (take (Suc i) ys)"
    then obtain j where j: "j < Suc i" "j < length ys" "ys ! j = g"
      by (auto simp: in_set_conv_nth)
    show "snd x \<le> snd g"
    proof (cases "j = i")
      case True with i j show ?thesis by simp
    next
      case False
      with j have "j < i" by simp
      from sorted_wrt_nth_less[OF srt this i(1)] i j show ?thesis by simp
    qed
  qed
  have "Suc i = length (filter (\<lambda>g. snd x \<le> snd g) (take (Suc i) ys))"
    using all i(1) by (simp add: filter_id_conv[THEN iffD2] min_def)
  also have "\<dots> \<le> length (filter (\<lambda>g. snd x \<le> snd g) (take (Suc i) ys @ drop (Suc i) ys))"
    by (simp only: filter_append length_append)
  also have "\<dots> \<le> k" using cnt by simp
  finally have "i < k" by simp
  with i show ?thesis by (auto simp: in_set_conv_nth intro!: exI[of _ i])
qed

lemma topProducts_member:
  assumes perm: "mset (engine (topProducts_groups d)) = mset (topProducts_groups d)"
    and g: "(n, q) \<in> set (topProducts_groups d)"
    and cnt: "length (filter (\<lambda>g. q \<le> snd g) (topProducts_groups d)) \<le> 5"
  shows "(n, q) \<in> set (topProducts engine d)"
proof -
  let ?ys = "sort_key (\<lambda>r. - snd r) (engine (topProducts_groups d))"
  have m: "mset ?ys = mset (topProducts_groups d)" using perm by simp
  have "(n, q) \<in> set ?ys" using g mset_eq_setD[OF m] by simp
  moreover have "length (filter (\<lambda>g. snd (n, q) \<le> snd g) ?ys) \<le> 5"
  proof -
    have "mset (filter (\<lambda>g. q \<le> snd g) ?ys) = mset (filter (\<lambda>g. q \<le> snd g) (topProducts_groups d))"
      by (simp only: mset_filter m)
    then have "length (filter (\<lambda>g. q \<le> snd g) ?ys) =
               length (filter (\<lambda>g. q \<le> snd g) (topProducts_groups d))"
      by (rule mset_eq_length)
    with cnt show ?thesis by simp
  qed
  moreover have "sorted_wrt (\<lambda>a b. snd b \<le> snd a) ?ys"
    by (rule sorted_desc_sort_key)
  ultimately show ?thesis
    unfolding topProducts_def by (intro sorted_desc_in_take)
qed

subsection \<open>The ranking of \<open>topProducts\<close>\<close>

text \<open>
  Claim C7 (as stated): \<open>topProducts\<close> is the top 5 products ranked by their summed
  item quantity, in descending order, ties broken by product name ascending.

  The query groups by name, not by product, and has no second sort key. In
  \<open>same_name_db\<close> the two product rows named ``Shaving wax'' have sold 2 each and a third
  product has sold 3: the handler's first entry is ``Shaving wax'' with 4, where the
  ranking of products has the third product first. In \<open>ties_db\<close>, where B and C have both
  sold 7, C before B is a result of the query.
\<close>

theorem topProducts_ranking_counterexample:
  "topProducts (\<lambda>xs. xs) same_name_db = [(''Shaving wax'', 4), (''Beard care kit'', 3)] \<and>
   spec_topProducts same_name_db =
     [(''Beard care kit'', 3), (''Shaving wax'', 2), (''Shaving wax'', 2)] \<and>
   topProducts (\<lambda>xs. xs) ties_db = [(''C'', 7), (''B'', 7), (''A'', 5)] \<and>
   spec_topProducts ties_db = [(''B'', 7), (''C'', 7), (''A'', 5)]"
  by (simp add: spec_topProducts_def dashboard_eval)

text \<open>
  Claim C7 (amended): \<open>topProducts\<close> is the first 5 of the groups in some arrangement of
  them in descending order of quantity, where there is one group per name of a product
  that has an item row, and its quantity is the sum of what all product rows of that
  name have sold. The order among equal quantities is unspecified. The engine only
  rearranges the groups; that is the hypothesis.
\<close>

theorem topProducts_ranking:
  assumes "mset (engine (topProducts_groups d)) = mset (topProducts_groups d)"
  shows "(\<exists>ys. topProducts engine d = take 5 ys \<and>
            mset ys = mset (topProducts_groups d) \<and>
            sorted_wrt (\<lambda>a b. snd b \<le> snd a) ys) \<and>
         distinct (map fst (topProducts_groups d)) \<and>
         set (map fst (topProducts_groups d)) =
           {n. \<exists>p\<in>set (products d). p_name p = n \<and>
                 (\<exists>si\<in>set (sale_items d). si_productId si = p_id p)} \<and>
         (\<forall>n q. (n, q) \<in> set (topProducts_groups d) \<longrightarrow>
            q = sum_list (map (product_sold d) (filter (\<lambda>p. p_name p = n) (products d))))"
proof -
  let ?G = "topProducts_groups d"
  let ?ys = "sort_key (\<lambda>r. - snd r) (engine ?G)"
  have 1: "topProducts engine d = take 5 ?ys" by (simp add: topProducts_def)
  have 2: "mset ?ys = mset ?G" using assms by simp
  have 3: "sorted_wrt (\<lambda>a b. snd b \<le> snd a) ?ys" by (rule sorted_desc_sort_key)
  have 6: "set (map fst ?G) =
           {n. \<exists>p\<in>set (products d). p_name p = n \<and>
                 (\<exists>si\<in>set (sale_items d). si_productId si = p_id p)}"
    by (simp only: topProducts_groups_names set_remdups topProducts_join_names)
  have 7: "\<forall>n q. (n, q) \<in> set ?G \<longrightarrow>
            q = sum_list (map (product_sold d) (filter (\<lambda>p. p_name p = n) (products d)))"
    using topProducts_groups_merge by blast
  from 1 2 3 have "\<exists>ys. topProducts engine d = take 5 ys \<and>
            mset ys = mset ?G \<and> sorted_wrt (\<lambda>a b. snd b \<le> snd a) ys"
    by (intro exI[of _ ?ys]) simp
  with topProducts_groups_distinct[of d] 6 7 show ?thesis by (intro conjI)
qed

theorem topProducts_ranking_witness:
  "mset (topProducts_groups ties_db) = mset (topProducts_groups ties_db) \<and>
   topProducts (\<lambda>xs. xs) ties_db = [(''C'', 7), (''B'', 7), (''A'', 5)] \<and>
   sorted_wrt (\<lambda>a b. snd b \<le> snd a) (topProducts (\<lambda>xs. xs) ties_db) \<and>
   set (map fst (topProducts_groups ties_db)) = {''A'', ''B'', ''C''} \<and>
   (5::int) = sum_list (map (product_sold ties_db) [product_named 1 ''A''])"
proof -
  have g: "topProducts_groups ties_db = [(''C'', 7), (''A'', 5), (''B'', 7)]"
    by (simp add: dashboard_eval)
  have t: "topProducts (\<lambda>xs. xs) ties_db = [(''C'', 7), (''B'', 7), (''A'', 5)]"
    by (simp add: topProducts_def g)
  from topProducts_ranking[of "\<lambda>xs. xs" ties_db] obtain ys where
    ys: "topProducts (\<lambda>xs. xs) ties_db = take 5 ys"
        "mset ys = mset (topProducts_groups ties_db)"
        "sorted_wrt (\<lambda>a b. snd b \<le> snd a) ys" and
    q: "\<forall>n q. (n, q) \<in> set (topProducts_groups ties_db) \<longrightarrow>
        q = sum_list (map (product_sold ties_db)
                        (filter (\<lambda>p. p_name p = n) (products ties_db)))"
    by auto
  have "length ys = length (topProducts_groups ties_db)"
    using ys(2) by (rule mset_eq_length)
  then have "length ys = 3" by (simp add: g)
  with ys(1) have "topProducts (\<lambda>xs. xs) ties_db = ys" by simp
  with ys(3) have o: "sorted_wrt (\<lambda>a b. snd b \<le> snd a) (topProducts (\<lambda>xs. xs) ties_db)"
    by simp
  from q have "(5::int) = sum_list (map (product_sold ties_db)
                        (filter (\<lambda>p. p_name p = ''A'') (products ties_db)))"
    by (simp add: g)
  then have s: "(5::int) = sum_list (map (product_sold ties_db) [product_named 1 ''A''])"
    by (simp add: ties_db_def product_named_def)
  have n: "set (map fst (topProducts_groups ties_db)) = {''A'', ''B'', ''C''}"
    by (auto simp: g)
  from t o s n show ?thesis by simp
qed

subsection \<open>Products of one name\<close>

text \<open>
  Claim C10: \<open>topProducts\<close> aggregates by product name rather than by product id. For
  every name \<open>n\<close>: no two entries carry the same name; an entry for \<open>n\<close> has as its
  quantity the sum, over all product rows named \<open>n\<close>, of what each has sold; there is a
  group for \<open>n\<close> exactly when a product row named \<open>n\<close> has an item row; and that group
  is an entry as soon as at most five groups have at least its quantity. So two product
  rows of one name appear as a single entry with the sum of both.
\<close>

theorem topProducts_merges_same_name:
  assumes "mset (engine (topProducts_groups d)) = mset (topProducts_groups d)"
  shows "distinct (map fst (topProducts engine d)) \<and>
         (\<forall>q. (n, q) \<in> set (topProducts engine d) \<longrightarrow>
            q = sum_list (map (product_sold d) (filter (\<lambda>p. p_name p = n) (products d)))) \<and>
         (n \<in> set (map fst (topProducts_groups d)) \<longleftrightarrow>
            (\<exists>p\<in>set (products d). p_name p = n \<and>
               (\<exists>si\<in>set (sale_items d). si_productId si = p_id p))) \<and>
         (\<forall>q. (n, q) \<in> set (topProducts_groups d) \<and>
              length (filter (\<lambda>g. q \<le> snd g) (topProducts_groups d)) \<le> 5 \<longrightarrow>
            (n, q) \<in> set (topProducts engine d))"
proof (intro conjI allI impI)
  show "distinct (map fst (topProducts engine d))"
    by (rule topProducts_distinct_names[of engine d, OF assms])
next
  fix q assume "(n, q) \<in> set (topProducts engine d)"
  then have "(n, q) \<in> set (topProducts_groups d)"
    using topProducts_subset[of engine d, OF assms] by blast
  then show "q = sum_list (map (product_sold d) (filter (\<lambda>p. p_name p = n) (products d)))"
    by (rule topProducts_groups_merge)
next
  show "n \<in> set (map fst (topProducts_groups d)) \<longleftrightarrow>
            (\<exists>p\<in>set (products d). p_name p = n \<and>
               (\<exists>si\<in>set (sale_items d). si_productId si = p_id p))"
    by (simp only: topProducts_groups_names set_remdups topProducts_join_names) simp
next
  fix q assume "(n, q) \<in> set (topProducts_groups d) \<and>
              length (filter (\<lambda>g. q \<le> snd g) (topProducts_groups d)) \<le> 5"
  then show "(n, q) \<in> set (topProducts engine d)"
    using topProducts_member[of engine d, OF assms] by blast
qed

theorem topProducts_merges_same_name_witness:
  "mset (topProducts_groups same_name_db) = mset (topProducts_groups same_name_db) \<and>
   topProducts (\<lambda>xs. xs) same_name_db = [(''Shaving wax'', 4), (''Beard care kit'', 3)] \<and>
   filter (\<lambda>p. p_name p = ''Shaving wax'') (products same_name_db) =
     [product_named 1 ''Shaving wax'', product_named 2 ''Shaving wax''] \<and>
   (4::int) = product_sold same_name_db (product_named 1 ''Shaving wax'') +
              product_sold same_name_db (product_named 2 ''Shaving wax'')"
proof -
  have t: "topProducts (\<lambda>xs. xs) same_name_db = [(''Shaving wax'', 4), (''Beard care kit'', 3)]"
    by (simp add: dashboard_eval)
  have f: "filter (\<lambda>p. p_name p = ''Shaving wax'') (products same_name_db) =
     [product_named 1 ''Shaving wax'', product_named 2 ''Shaving wax'']"
    by (simp add: same_name_db_def product_named_def)
  from topProducts_merges_same_name[of "\<lambda>xs. xs" same_name_db "''Shaving wax''"]
  have "\<forall>q. (''Shaving wax'', q) \<in> set (topProducts (\<lambda>xs. xs) same_name_db) \<longrightarrow>
          q = sum_list (map (product_sold same_name_db)
                 (filter (\<lambda>p. p_name p = ''Shaving wax'') (products same_name_db)))"
    by simp
  then have "(4::int) = sum_list (map (product_sold same_name_db)
                 (filter (\<lambda>p. p_name p = ''Shaving wax'') (products same_name_db)))"
    by (simp add: t)
  with t f show ?thesis by simp
qed

subsection \<open>The window of \<open>salesTrend\<close>\<close>

lemmas trend_eval =
  salesTrend_def spec_salesTrend_def sql_date_def trend_db_def sale_at_def seed_db_def
  seed_time_def Let_def

lemma salesTrend_days:
  "map fst (salesTrend now d) =
     sort (remdups (map (\<lambda>s. sql_date (s_createdAt s))
       (filter (\<lambda>s. sql_date now - 14 \<le> sql_date (s_createdAt s)) (sales d))))"
  by (simp add: salesTrend_def Let_def comp_def)

text \<open>
  Claim C8 (as stated): \<open>salesTrend\<close> has one entry per day with a sale in the 14-day
  window that ends at and includes today, and no day outside it.

  The query keeps every sale from 14 days before today onward. With today on day 20394,
  \<open>trend_db\<close> has sales on the days 20380 (14 days before), 20381, 20394 and 20395 (the
  day after): the handler reports all four days, the 14-day window holds two of them.
\<close>

theorem salesTrend_window_counterexample:
  "salesTrend seed_time trend_db = [(20380, 10), (20381, 20), (20394, 70), (20395, 50)] \<and>
   spec_salesTrend seed_time trend_db = [(20381, 20), (20394, 70)] \<and>
   sql_date seed_time = 20394"
  by (simp add: trend_eval)

text \<open>
  Claim C8 (amended): \<open>salesTrend\<close> has exactly one entry per calendar day that is not
  earlier than 14 days before today and on which at least one sale exists (today and
  the 14 days before it, and any later day), in ascending order of the day; each
  entry's total is the sum of the totals of the sales of that day; no other day appears.
\<close>

theorem salesTrend_window:
  "sorted (map fst (salesTrend now d)) \<and> distinct (map fst (salesTrend now d)) \<and>
   set (map fst (salesTrend now d)) =
     {day. sql_date now - 14 \<le> day \<and> (\<exists>s\<in>set (sales d). sql_date (s_createdAt s) = day)} \<and>
   (\<forall>day t. (day, t) \<in> set (salesTrend now d) \<longrightarrow>
      t = sum_list (map s_total (filter (\<lambda>s. sql_date (s_createdAt s) = day) (sales d))))"
proof (intro conjI allI impI)
  show "sorted (map fst (salesTrend now d))" by (simp add: salesTrend_days)
  show "distinct (map fst (salesTrend now d))" by (simp add: salesTrend_days)
  show "set (map fst (salesTrend now d)) =
     {day. sql_date now - 14 \<le> day \<and> (\<exists>s\<in>set (sales d). sql_date (s_createdAt s) = day)}"
    by (auto simp: salesTrend_days)
next
  fix day t assume a: "(day, t) \<in> set (salesTrend now d)"
  let ?rows = "filter (\<lambda>s. sql_date now - 14 \<le> sql_date (s_createdAt s)) (sales d)"
  from a have day: "sql_date now - 14 \<le> day"
    and t: "t = sum_list (map s_total (filter (\<lambda>s. sql_date (s_createdAt s) = day) ?rows))"
    by (auto simp: salesTrend_def Let_def)
  have "filter (\<lambda>s. sql_date (s_createdAt s) = day) ?rows =
        filter (\<lambda>s. sql_date (s_createdAt s) = day) (sales d)"
    using day by (auto intro: filter_cong)
  with t show "t = sum_list (map s_total (filter (\<lambda>s. sql_date (s_createdAt s) = day) (sales d)))"
    by simp
qed

theorem salesTrend_window_witness:
  "sql_date seed_time - 14 = 20380 \<and>
   (20380, 10) \<in> set (salesTrend seed_time trend_db) \<and>
   (10 :: real) = sum_list (map s_total
      (filter (\<lambda>s. sql_date (s_createdAt s) = 20380) (sales trend_db))) \<and>
   20379 \<notin> set (map fst (salesTrend seed_time trend_db))"
proof -
  have n: "sql_date seed_time - 14 = 20380" by (simp add: sql_date_def seed_time_def)
  have m: "(20380, 10) \<in> set (salesTrend seed_time trend_db)" by (simp add: trend_eval)
  from salesTrend_window[of seed_time trend_db] m have
    "(10 :: real) = sum_list (map s_total
      (filter (\<lambda>s. sql_date (s_createdAt s) = 20380) (sales trend_db)))"
    by blast
  moreover from salesTrend_window[of seed_time trend_db] have
    "set (map fst (salesTrend seed_time trend_db)) =
     {day. sql_date seed_time - 14 \<le> day \<and>
           (\<exists>s\<in>set (sales trend_db). sql_date (s_createdAt s) = day)}"
    by blast
  then have "20379 \<notin> set (map fst (salesTrend seed_time trend_db))"
    by (simp add: n)
  ultimately show ?thesis using n m by simp
qed

section \<open>Properties of the sales report\<close>

lemmas report_eval =
  salesReport_def spec_salesReport_rows_def leftJoin_users_def sql_date_def
  seed_db_def seed_time_def Let_def

text \<open>
  Claim C9 (as stated): \<open>salesReport\<close> returns exactly the sales of the date range,
  restricted to the given \<open>userId\<close> when one is supplied.

  The handler tests \<open>if (userId)\<close>, so the user id 0 is treated as none: against the
  seeded store, the report for user 0 on the day of the seeded sale returns that sale,
  which user 1 posted.
\<close>

theorem salesReport_user_filter_counterexample:
  "map (\<lambda>r. (s_id (fst r), s_userId (fst r), snd r))
       (salesReport (\<lambda>xs. xs) (seed_db True) 20394 20394 (Some 0)) = [(1, 1, Some ''admin'')] \<and>
   spec_salesReport_rows (seed_db True) 20394 20394 (Some 0) = []"
  by (simp add: report_eval)

text \<open>With unique user ids, the left join yields one row per sale.\<close>

lemma filter_unique_key:
  "distinct (map f xs) \<Longrightarrow>
     filter (\<lambda>x. f x = k) xs = (case find (\<lambda>x. f x = k) xs of None \<Rightarrow> [] | Some x \<Rightarrow> [x])"
proof (induction xs)
  case Nil then show ?case by simp
next
  case (Cons x xs)
  show ?case
  proof (cases "f x = k")
    case True
    with Cons.prems have "filter (\<lambda>y. f y = k) xs = []"
      by (auto simp: filter_empty_conv) (metis imageI)
    with True show ?thesis by simp
  next
    case False
    with Cons show ?thesis by simp
  qed
qed

lemma leftJoin_users_unique:
  "distinct (map u_id us) \<Longrightarrow>
     leftJoin_users us s =
       [(s, map_option u_username (find (\<lambda>u. u_id u = s_userId s) us))]"
  by (simp add: leftJoin_users_def filter_unique_key split: option.splits)

lemma salesReport_unique_users:
  assumes "distinct (map u_id (users d))"
  shows "salesReport engine d fromDate toDate usr =
     sort_key (\<lambda>r. - s_createdAt (fst r))
       (engine (map (\<lambda>s. (s, map_option u_username
                              (find (\<lambda>u. u_id u = s_userId s) (users d))))
                    (filter (report_cond fromDate toDate usr) (sales d))))"
proof -
  have j: "concat (map (leftJoin_users (users d)) ss) =
        map (\<lambda>s. (s, map_option u_username (find (\<lambda>u. u_id u = s_userId s) (users d)))) ss" for ss
    by (induction ss) (simp_all add: leftJoin_users_unique[OF assms])
  have u: "(case usr of None \<Rightarrow> xs
            | Some u \<Rightarrow> if u \<noteq> 0 then filter (\<lambda>r. s_userId (fst r) = u) xs else xs) =
        filter (\<lambda>r. case usr of None \<Rightarrow> True | Some u \<Rightarrow> u = 0 \<or> s_userId (fst r) = u) xs"
    for xs :: "(sale \<times> string option) list"
    by (cases usr) auto
  have f: "filter (\<lambda>r. case usr of None \<Rightarrow> True | Some u \<Rightarrow> u = 0 \<or> s_userId (fst r) = u)
             (filter (\<lambda>r. fromDate \<le> sql_date (s_createdAt (fst r))
                            \<and> sql_date (s_createdAt (fst r)) \<le> toDate)
                (map g ss)) =
           map g (filter (report_cond fromDate toDate usr) ss)"
    if "\<And>s. fst (g s) = s" for ss and g :: "sale \<Rightarrow> sale \<times> string option"
    by (induction ss) (auto simp: report_cond_def that split: option.splits)
  show ?thesis
    unfolding salesReport_def Let_def j u
    by (subst f) simp_all
qed

text \<open>
  Claim C9 (amended): with unique user ids, \<open>salesReport\<close> returns exactly the sales
  whose date lies in the range, both ends included, restricted to the given \<open>userId\<close>
  when one other than 0 is supplied (0 counts as none), in descending order of
  \<open>createdAt\<close>, each with the name of the user of that id, or none when there is no such
  user; when no sale falls in the range the result is empty. The engine only rearranges
  the rows; that is the second hypothesis.
\<close>

theorem salesReport_rows:
  assumes "distinct (map u_id (users d))" and "\<And>xs. mset (engine xs) = mset xs"
  shows "mset (map fst (salesReport engine d fromDate toDate usr)) =
           mset (filter (\<lambda>s. fromDate \<le> sql_date (s_createdAt s) \<and>
                               sql_date (s_createdAt s) \<le> toDate \<and>
                               (case usr of None \<Rightarrow> True | Some u \<Rightarrow> u = 0 \<or> s_userId s = u))
                        (sales d)) \<and>
         sorted_wrt (\<lambda>a b. s_createdAt (fst b) \<le> s_createdAt (fst a))
           (salesReport engine d fromDate toDate usr) \<and>
         (\<forall>s name. (s, name) \<in> set (salesReport engine d fromDate toDate usr) \<longrightarrow>
            name = map_option u_username (find (\<lambda>u. u_id u = s_userId s) (users d))) \<and>
         ((\<forall>s\<in>set (sales d). \<not> (fromDate \<le> sql_date (s_createdAt s) \<and>
                                     sql_date (s_createdAt s) \<le> toDate)) \<longrightarrow>
            salesReport engine d fromDate toDate usr = [])"
proof -
  let ?rows = "map (\<lambda>s. (s, map_option u_username (find (\<lambda>u. u_id u = s_userId s) (users d))))
                    (filter (report_cond fromDate toDate usr) (sales d))"
  have eq: "salesReport engine d fromDate toDate usr =
     sort_key (\<lambda>r. - s_createdAt (fst r)) (engine ?rows)"
    by (rule salesReport_unique_users[OF assms(1)])
  have m: "mset (salesReport engine d fromDate toDate usr) = mset ?rows"
    by (simp add: eq assms(2))
  have 1: "mset (map fst (salesReport engine d fromDate toDate usr)) =
           mset (filter (report_cond fromDate toDate usr) (sales d))"
  proof -
    have "mset (map fst (salesReport engine d fromDate toDate usr)) =
          image_mset fst (mset (salesReport engine d fromDate toDate usr))"
      by simp
    also have "\<dots> = image_mset fst (mset ?rows)" by (simp only: m)
    also have "\<dots> = mset (filter (report_cond fromDate toDate usr) (sales d))"
      by (simp add: multiset.map_comp comp_def)
    finally show ?thesis .
  qed
  have 2: "sorted_wrt (\<lambda>a b. s_createdAt (fst b) \<le> s_createdAt (fst a))
           (salesReport engine d fromDate toDate usr)"
  proof -
    have "sorted (map (\<lambda>r. - s_createdAt (fst r)) (salesReport engine d fromDate toDate usr))"
      unfolding eq by (rule sorted_sort_key)
    then show ?thesis by (simp add: sorted_map)
  qed
  have 3: "\<forall>s name. (s, name) \<in> set (salesReport engine d fromDate toDate usr) \<longrightarrow>
            name = map_option u_username (find (\<lambda>u. u_id u = s_userId s) (users d))"
  proof (intro allI impI)
    fix s name assume "(s, name) \<in> set (salesReport engine d fromDate toDate usr)"
    then have "(s, name) \<in> set ?rows"
      using mset_eq_setD[OF m] by simp
    then show "name = map_option u_username (find (\<lambda>u. u_id u = s_userId s) (users d))"
      by auto
  qed
  have 4: "(\<forall>s\<in>set (sales d). \<not> (fromDate \<le> sql_date (s_createdAt s) \<and>
                                     sql_date (s_createdAt s) \<le> toDate)) \<longrightarrow>
            salesReport engine d fromDate toDate usr = []"
  proof
    assume "\<forall>s\<in>set (sales d). \<not> (fromDate \<le> sql_date (s_createdAt s) \<and>
                                     sql_date (s_createdAt s) \<le> toDate)"
    then have "filter (report_cond fromDate toDate usr) (sales d) = []"
      by (auto simp: filter_empty_conv report_cond_def)
    with m show "salesReport engine d fromDate toDate usr = []" by simp
  qed
  from 1 2 3 4 show ?thesis by (simp add: report_cond_def)
qed

theorem salesReport_rows_witness:
  "distinct (map u_id (users (seed_db True))) \<and>
   list_all (\<lambda>s. \<not> (20000 \<le> sql_date (s_createdAt s) \<and> sql_date (s_createdAt s) \<le> 20001))
     (sales (seed_db True)) \<and>
   salesReport (\<lambda>xs. xs) (seed_db True) 20000 20001 None = [] \<and>
   map (\<lambda>r. (s_id (fst r), s_userId (fst r), snd r))
     (salesReport (\<lambda>xs. xs) (seed_db True) 20394 20394 (Some 1)) = [(1, 1, Some ''admin'')] \<and>
   salesReport (\<lambda>xs. xs) (seed_db True) 20394 20394 (Some 2) = []"
proof -
  have u: "distinct (map u_id (users (seed_db True)))" by (simp add: seed_db_def)
  have e: "list_all (\<lambda>s. \<not> (20000 \<le> sql_date (s_createdAt s) \<and>
                             sql_date (s_createdAt s) \<le> 20001)) (sales (seed_db True))"
    by (simp add: seed_db_def sql_date_def seed_time_def)
  from salesReport_rows[of "seed_db True" "\<lambda>xs. xs" 20000 20001 None, OF u] e
  have 1: "salesReport (\<lambda>xs. xs) (seed_db True) 20000 20001 None = []"
    by (simp add: list_all_iff)
  from salesReport_rows[of "seed_db True" "\<lambda>xs. xs" 20394 20394 "Some 2", OF u]
  have "mset (map fst (salesReport (\<lambda>xs. xs) (seed_db True) 20394 20394 (Some 2))) =
        mset (filter (\<lambda>s. 20394 \<le> sql_date (s_createdAt s) \<and> sql_date (s_createdAt s) \<le> 20394 \<and>
                          s_userId s = 2) (sales (seed_db True)))"
    by simp
  then have 2: "salesReport (\<lambda>xs. xs) (seed_db True) 20394 20394 (Some 2) = []"
    by (simp add: seed_db_def)
  have 3: "map (\<lambda>r. (s_id (fst r), s_userId (fst r), snd r))
     (salesReport (\<lambda>xs. xs) (seed_db True) 20394 20394 (Some 1)) = [(1, 1, Some ''admin'')]"
    by (simp add: report_eval)
  from u e 1 2 3 show ?thesis by simp
qed

end
